theory Spec2Isabelle
  imports Complex_Main
begin

section \<open>Time arithmetic (App.jsx, lines 21-35)\<close>

text \<open>
  JavaScript numbers that hold minute counts are modelled as \<open>int\<close>: every value the
  functions below compute from integers is an integer, and the model is exact as long as
  the values stay below \<open>2^53\<close>.  \<open>Number(s)\<close> yields a number or NaN.
\<close>

datatype number = NaN | Num int

definition is_digit :: "char \<Rightarrow> bool" where
  "is_digit c = (c \<in> set ''0123456789'')"

definition digit_val :: "char \<Rightarrow> nat" where
  "digit_val c = of_char c - 48"

definition digit_char :: "nat \<Rightarrow> char" where
  "digit_char n = ''0123456789'' ! n"

text \<open>The value of a string of decimal digits, read left to right.\<close>

definition dec :: "string \<Rightarrow> nat" where
  "dec s = foldl (\<lambda>a c. 10 * a + digit_val c) 0 s"

text \<open>
  \<open>Number(s)\<close> on the strings a time field holds: a string of ASCII decimal digits
  converts to its value, the empty string to 0, and text that is no numeric literal to NaN.
  JavaScript also converts literals with surrounding white space, a sign, a fraction, an
  exponent, a radix prefix, and \<open>Infinity\<close>; such strings are outside this model.  The
  application itself writes none of them into a time field: it writes the value of a time
  input, the result of \<open>nowHHMM()\<close> and the literals "08:00" and "16:00".  Fields with a
  fraction are modelled apart, in double precision, further down.
\<close>

definition Number :: "string \<Rightarrow> number" where
  "Number s = (if list_all is_digit s then Num (int (dec s)) else NaN)"

text \<open>\<open>s.split(":")\<close>: the fields between the colons; never the empty list.\<close>

fun split_colon :: "string \<Rightarrow> string list" where
  "split_colon [] = [[]]"
| "split_colon (c # cs) =
     (if c = CHR '':'' then [] # split_colon cs
      else (let r = split_colon cs in (c # hd r) # tl r))"

text \<open>\<open>xs[i]\<close>: reading past the end of an array yields \<open>undefined\<close>, here \<open>None\<close>.\<close>

definition at_index :: "'a list \<Rightarrow> nat \<Rightarrow> 'a option" where
  "at_index xs i = (if i < length xs then Some (xs ! i) else None)"

text \<open>\<open>x || 0\<close> for a number that may be \<open>undefined\<close>: NaN, 0 and \<open>undefined\<close> give 0.\<close>

definition or_zero :: "number option \<Rightarrow> int" where
  "or_zero x = (case x of Some (Num n) \<Rightarrow> n | _ \<Rightarrow> 0)"

text \<open>
  \<open>toMinutes(hhmm)\<close>; the argument is a string or \<open>undefined\<close> (\<open>None\<close>), and
  \<open>!hhmm\<close> holds for \<open>undefined\<close> and for the empty string.
\<close>

definition toMinutes :: "string option \<Rightarrow> int" where
  "toMinutes hhmm = (case hhmm of
       None \<Rightarrow> 0
     | Some s \<Rightarrow>
         if s = [] then 0
         else (let fields = map Number (split_colon s);
                   h = at_index fields 0;
                   m = at_index fields 1
               in or_zero h * 60 + or_zero m))"

text \<open>\<open>n.toString()\<close> for a natural number: its decimal digits.\<close>

function toString :: "nat \<Rightarrow> string" where
  "toString n = (if n < 10 then [digit_char n]
                 else toString (n div 10) @ [digit_char (n mod 10)])"
  by pat_completeness auto
termination
  by (relation "measure id") auto

declare toString.simps [simp del]

text \<open>\<open>s.padStart(n, c)\<close> for a one-character pad string.\<close>

definition padStart :: "nat \<Rightarrow> char \<Rightarrow> string \<Rightarrow> string" where
  "padStart n c s = replicate (n - length s) c @ s"

definition minutesToHHMM :: "int \<Rightarrow> string" where
  "minutesToHHMM mins =
     (let sign = (if mins < 0 then ''-'' else '''');
          a = nat \<bar>mins\<bar>;
          h = padStart 2 CHR ''0'' (toString (a div 60));
          m = padStart 2 CHR ''0'' (toString (a mod 60))
      in sign @ h @ '':'' @ m)"

text \<open>
  The strings the round trip is claimed for: two digits, a colon, two digits, with the
  hours in 00..23 and the minutes in 00..59.
\<close>

definition valid_hhmm :: "string \<Rightarrow> bool" where
  "valid_hhmm x = (case x of
      [a, b, c, d, e] \<Rightarrow>
        is_digit a \<and> is_digit b \<and> c = CHR '':'' \<and> is_digit d \<and> is_digit e
        \<and> 10 * digit_val a + digit_val b \<le> 23 \<and> 10 * digit_val d + digit_val e \<le> 59
    | _ \<Rightarrow> False)"


section \<open>Day entries and their durations (App.jsx, lines 8-9, 37-44, 229)\<close>

text \<open>
  \<open>TimePair\<close> and \<open>DayEntry\<close>.  The type annotation makes only \<open>end\<close> and
  \<open>note\<close> optional, but the code tests \<open>start\<close> for absence as well, so both times
  are optional here.  A time is taken as present when it is truthy: defined and not the
  empty string (a cleared time input holds the empty string).
\<close>

record TimePair =
  start :: "string option"
  end_hhmm :: "string option"

record DayEntry =
  date :: string
  pairs :: "TimePair list"
  note_text :: "string option"

definition truthy :: "string option \<Rightarrow> bool" where
  "truthy x = (case x of None \<Rightarrow> False | Some s \<Rightarrow> s \<noteq> [])"

text \<open>The callback that \<open>sumDayMinutes\<close> passes to \<open>reduce\<close>.\<close>

definition sumDayStep :: "int \<Rightarrow> TimePair \<Rightarrow> int" where
  "sumDayStep acc p =
     (if \<not> truthy (start p) \<or> \<not> truthy (end_hhmm p) then acc
      else (let dm = toMinutes (end_hhmm p) - toMinutes (start p);
                dm = (if dm < 0 then dm + 24 * 60 else dm)
            in acc + dm))"

definition sumDayMinutes :: "DayEntry \<Rightarrow> int" where
  "sumDayMinutes entry = foldl sumDayStep 0 (pairs entry)"

text \<open>\<open>a % b\<close> on integers: the remainder takes the sign of the dividend.\<close>

definition js_rem :: "int \<Rightarrow> int \<Rightarrow> int" where
  "js_rem a b = sgn a * (\<bar>a\<bar> mod \<bar>b\<bar>)"

text \<open>The duration \<open>dm\<close> that \<open>handleExportCSV\<close> computes for each pair.\<close>

definition csvDuration :: "TimePair \<Rightarrow> int" where
  "csvDuration p =
     (if truthy (start p) \<and> truthy (end_hhmm p)
      then js_rem (toMinutes (end_hhmm p) - toMinutes (start p) + 1440) 1440
      else 0)"


section \<open>Aggregation (App.jsx, lines 131-137)\<close>

record overtime =
  total :: int
  target :: int
  delta :: int

text \<open>\<open>overtimeFor\<close> reads \<open>dailyTargetMinutes\<close> from the component state.\<close>

definition overtimeFor :: "int \<Rightarrow> DayEntry list \<Rightarrow> overtime" where
  "overtimeFor dailyTargetMinutes entriesList =
     (let total = foldl (\<lambda>acc e. acc + sumDayMinutes e) 0 entriesList;
          workedDays = length (filter (\<lambda>e. sumDayMinutes e > 0) entriesList);
          target = int workedDays * dailyTargetMinutes
      in \<lparr>total = total, target = target, delta = total - target\<rparr>)"


section \<open>Mutations of the entries (App.jsx, lines 113, 148-163, 220-222, 268, 316)\<close>

text \<open>\<open>xs.findIndex(P)\<close>, with \<open>None\<close> for -1.\<close>

fun findIndex :: "('a \<Rightarrow> bool) \<Rightarrow> 'a list \<Rightarrow> nat option" where
  "findIndex P [] = None"
| "findIndex P (x # xs) = (if P x then Some 0 else map_option Suc (findIndex P xs))"

text \<open>
  \<open>addStartNow\<close> is the function given to \<open>setEntries\<close>; \<open>now\<close> is the value of
  \<open>nowHHMM()\<close>.
\<close>

definition addStartNow :: "string \<Rightarrow> string \<Rightarrow> DayEntry list \<Rightarrow> DayEntry list" where
  "addStartNow now selectedDate prev =
     (case findIndex (\<lambda>e. date e = selectedDate) prev of
        None \<Rightarrow>
          prev @ [\<lparr>date = selectedDate,
                   pairs = [\<lparr>start = Some now, end_hhmm = None\<rparr>],
                   note_text = None\<rparr>]
      | Some idx \<Rightarrow>
          (let e = prev ! idx in
           if pairs e \<noteq> [] \<and> \<not> truthy (end_hhmm (last (pairs e))) then prev
           else prev[idx := e\<lparr>pairs := pairs e @ [\<lparr>start = Some now, end_hhmm = None\<rparr>]\<rparr>]))"

definition clearDay :: "string \<Rightarrow> DayEntry list \<Rightarrow> DayEntry list" where
  "clearDay selectedDate prev =
     map (\<lambda>e. if date e = selectedDate then e\<lparr>pairs := []\<rparr> else e) prev"

definition todayEntry :: "string \<Rightarrow> DayEntry list \<Rightarrow> DayEntry" where
  "todayEntry selectedDate entries =
     (case find (\<lambda>e. date e = selectedDate) entries of
        Some e \<Rightarrow> e
      | None \<Rightarrow> \<lparr>date = selectedDate, pairs = [], note_text = None\<rparr>)"

definition hasOpenPair :: "string \<Rightarrow> DayEntry list \<Rightarrow> bool" where
  "hasOpenPair selectedDate entries =
     list_ex (\<lambda>p. truthy (start p) \<and> \<not> truthy (end_hhmm p))
       (pairs (todayEntry selectedDate entries))"

text \<open>
  The button "Kommen jetzt" (line 316) has \<open>onClick={addStartNow}\<close> and
  \<open>disabled={hasOpenPair}\<close>: a click on the disabled button does nothing.
\<close>

definition clockInButton :: "string \<Rightarrow> string \<Rightarrow> DayEntry list \<Rightarrow> DayEntry list" where
  "clockInButton now selectedDate entries =
     (if hasOpenPair selectedDate entries then entries
      else addStartNow now selectedDate entries)"


section \<open>JSON import (App.jsx, lines 242-257)\<close>

text \<open>A parsed JSON document; the members of an object in the order of the text.\<close>

datatype json =
    JNull
  | JBool bool
  | JNum real
  | JStr string
  | JArr "json list"
  | JObj "(string \<times> json) list"

datatype error = SyntaxError | TypeError

text \<open>
  \<open>data.key\<close> for the two keys the import reads, \<open>entries\<close> and
  \<open>dailyTargetMinutes\<close>.  Reading a property of \<open>null\<close> throws a TypeError.  An
  object yields its member of that name (the last one when the text repeats the name), or
  \<open>undefined\<close>, here \<open>None\<close>.  Arrays, strings, numbers and booleans have no member of
  these names; \<open>entries\<close> of an array is an inherited method, which is neither an array
  nor a number and so passes neither test of the import, like \<open>undefined\<close>.
\<close>

fun getProp :: "json \<Rightarrow> string \<Rightarrow> error + json option" where
  "getProp JNull key = Inl TypeError"
| "getProp (JObj members) key = Inr (map_of (rev members) key)"
| "getProp data key = Inr None"

text \<open>
  The two pieces of component state the import writes.  The import stores
  \<open>data.entries\<close> as it is, without looking at the elements, so the entries are JSON
  values here.
\<close>

record tracker =
  entries :: "json list"
  dailyTargetMinutes :: real

text \<open>The message of the \<open>alert\<close> call in the \<open>catch\<close> block.\<close>

datatype alert = Invalid_JSON_file

text \<open>
  \<open>handleImportJSON\<close> with the \<open>onload\<close> callback it installs.  The argument is
  \<open>None\<close> when no file was chosen, and otherwise the outcome of \<open>JSON.parse\<close> on the
  text of the file: \<open>Inl SyntaxError\<close> when the text is no JSON.  The result is the state
  after the callback and the alert shown, if any.
\<close>

definition handleImportJSON :: "(error + json) option \<Rightarrow> tracker \<Rightarrow> tracker \<times> alert option" where
  "handleImportJSON file st =
     (case file of
        None \<Rightarrow> (st, None)
      | Some (Inl err) \<Rightarrow> (st, Some Invalid_JSON_file)
      | Some (Inr data) \<Rightarrow>
          (case getProp data ''entries'' of
             Inl err \<Rightarrow> (st, Some Invalid_JSON_file)
           | Inr ents \<Rightarrow>
               (let st1 = (case ents of Some (JArr xs) \<Rightarrow> st\<lparr>entries := xs\<rparr> | _ \<Rightarrow> st)
                in case getProp data ''dailyTargetMinutes'' of
                     Inl err \<Rightarrow> (st1, Some Invalid_JSON_file)
                   | Inr tgt \<Rightarrow>
                       ((case tgt of Some (JNum n) \<Rightarrow> st1\<lparr>dailyTargetMinutes := n\<rparr>
                                   | _ \<Rightarrow> st1), None))))"

text \<open>\<open>Array.isArray(data.entries)\<close>, false also when reading the property throws.\<close>

definition entriesIsArray :: "json \<Rightarrow> bool" where
  "entriesIsArray data =
     (case getProp data ''entries'' of Inr (Some (JArr xs)) \<Rightarrow> True | _ \<Rightarrow> False)"


section \<open>Calendar grouping (App.jsx, lines 46-51, 115-126)\<close>

text \<open>
  A \<open>Date\<close> is its time value, here in whole minutes since 1970-01-01T00:00 UTC.  The
  time zone of the browser is a parameter \<open>tz\<close>: its offset in minutes east of UTC
  (the negation of \<open>getTimezoneOffset()\<close>), taken as constant over the days looked at.
  Calendar dates are converted to and from day numbers (days since 1970-01-01) in the
  proleptic Gregorian calendar.
\<close>

definition days_from_civil :: "int \<Rightarrow> int \<Rightarrow> int \<Rightarrow> int" where
  "days_from_civil y m d =
     (let y' = (if m \<le> 2 then y - 1 else y);
          era = y' div 400;
          yoe = y' - era * 400;
          doy = (153 * (if m > 2 then m - 3 else m + 9) + 2) div 5 + d - 1;
          doe = yoe * 365 + yoe div 4 - yoe div 100 + doy
      in era * 146097 + doe - 719468)"

definition civil_from_days :: "int \<Rightarrow> int \<times> int \<times> int" where
  "civil_from_days z =
     (let z' = z + 719468;
          era = z' div 146097;
          doe = z' - era * 146097;
          yoe = (doe - doe div 1460 + doe div 36524 - doe div 146096) div 365;
          doy = doe - (365 * yoe + yoe div 4 - yoe div 100);
          mp = (5 * doy + 2) div 153;
          d = doy - (153 * mp + 2) div 5 + 1;
          m = (if mp < 10 then mp + 3 else mp - 9);
          y = yoe + era * 400
      in (if m \<le> 2 then y + 1 else y, m, d))"

text \<open>A date string "YYYY-MM-DD" and its year, month and day.\<close>

definition parse_ymd :: "string \<Rightarrow> int \<times> int \<times> int" where
  "parse_ymd s = (int (dec (take 4 s)), int (dec (take 2 (drop 5 s))), int (dec (take 2 (drop 8 s))))"

definition format_ymd :: "int \<times> int \<times> int \<Rightarrow> string" where
  "format_ymd ymd = (case ymd of (y, m, d) \<Rightarrow>
     padStart 4 CHR ''0'' (toString (nat y)) @ ''-'' @ padStart 2 CHR ''0'' (toString (nat m))
       @ ''-'' @ padStart 2 CHR ''0'' (toString (nat d)))"

text \<open>\<open>new Date(dateStr + "T00:00:00")\<close>: midnight of that date in local time.\<close>

definition newDate :: "int \<Rightarrow> string \<Rightarrow> int" where
  "newDate tz dateStr =
     (case parse_ymd dateStr of (y, m, d) \<Rightarrow> days_from_civil y m d * 1440 - tz)"

text \<open>\<open>d.getDay()\<close>: the weekday in local time, Sunday = 0; 1970-01-01 was a Thursday.\<close>

definition getDay :: "int \<Rightarrow> int \<Rightarrow> int" where
  "getDay tz t = ((t + tz) div 1440 + 4) mod 7"

text \<open>
  \<open>d.setDate(d.getDate() + k)\<close>: the local date moves by \<open>k\<close> days and the local time
  of day stays.
\<close>

definition addDays :: "int \<Rightarrow> int \<Rightarrow> int" where
  "addDays t k = t + k * 1440"

text \<open>\<open>d.toISOString().slice(0, 10)\<close>: the date in UTC.\<close>

definition isoDate :: "int \<Rightarrow> string" where
  "isoDate t = format_ymd (civil_from_days (t div 1440))"

definition startOfWeek :: "int \<Rightarrow> string \<Rightarrow> string" where
  "startOfWeek tz dateStr =
     (let d = newDate tz dateStr;
          day = (getDay tz d + 6) mod 7;
          d = addDays d (- day)
      in isoDate d)"

text \<open>The loop of \<open>weekEntries\<close>, for \<open>i\<close> from 0 to 6.\<close>

definition weekEntries :: "int \<Rightarrow> string \<Rightarrow> DayEntry list \<Rightarrow> DayEntry list" where
  "weekEntries tz selectedDate es =
     (let sow = startOfWeek tz selectedDate;
          d0 = newDate tz sow
      in map (\<lambda>i. let di = addDays d0 (int i);
                       ymd = isoDate di
                   in (case find (\<lambda>e. date e = ymd) es of
                         Some e \<Rightarrow> e
                       | None \<Rightarrow> \<lparr>date = ymd, pairs = [], note_text = None\<rparr>))
           [0..<7])"

text \<open>
  \<open>todayYMD\<close>, for comparison: the current date in local time, where \<open>now\<close> is the
  time value of \<open>new Date()\<close>.  It shifts the time value by the zone offset before it
  takes the UTC date.
\<close>

definition todayYMD :: "int \<Rightarrow> int \<Rightarrow> string" where
  "todayYMD tz now = (let tzOff = - tz; local = now - tzOff in isoDate local)"

section \<open>Durations in double precision (App.jsx, lines 21-25, 37-44, 229)\<close>

text \<open>
  A time field with a fraction, such as "00.1", is not what a time input holds, but an
  imported file can hold it, and \<open>Number\<close> converts it to a number that is no integer.
  The integer model above does not cover such fields.  This section models the two
  duration formulas in IEEE 754 double precision, for fields of digits with an optional
  fraction.  A finite double is modelled as the rational it denotes, and every arithmetic
  operation rounds its exact result to the nearest double, ties to even.  Results are
  taken to lie in the normal range of doubles: overflow, subnormal numbers and the sign of
  zero are not modelled.
\<close>

text \<open>
  The binary exponent of a positive rational \<open>x\<close>, that is \<open>e\<close> with
  \<open>2^e \<le> x < 2^(e+1)\<close>, found by at most \<open>n\<close> halvings or doublings.  The exponents
  of normal doubles lie between -1022 and 1023, so 1100 steps are enough.
\<close>

fun binary_exponent :: "nat \<Rightarrow> rat \<Rightarrow> int" where
  "binary_exponent 0 x = 0"
| "binary_exponent (Suc n) x =
     (if 2 \<le> x then binary_exponent n (x / 2) + 1
      else if x < 1 then binary_exponent n (x * 2) - 1
      else 0)"

text \<open>The power \<open>2^k\<close> for an integer \<open>k\<close>.\<close>

definition pow2 :: "int \<Rightarrow> rat" where
  "pow2 k = (if 0 \<le> k then 2 ^ nat k else 1 / 2 ^ nat (- k))"

text \<open>Rounding to the nearest integer, ties to the even one.\<close>

definition round_half_even :: "rat \<Rightarrow> int" where
  "round_half_even r =
     (let n = \<lfloor>r\<rfloor>; d = r - of_int n
      in if d < 1 / 2 then n else if 1 / 2 < d then n + 1 else if even n then n else n + 1)"

text \<open>
  The double nearest to \<open>x\<close>: doubles with binary exponent \<open>e\<close> are the multiples of
  \<open>2^(e-52)\<close>.
\<close>

definition to_double :: "rat \<Rightarrow> rat" where
  "to_double x =
     (if x = 0 then 0
      else (let ulp = pow2 (binary_exponent 1100 \<bar>x\<bar> - 52)
            in of_int (round_half_even (x / ulp)) * ulp))"

text \<open>\<open>a + b\<close>, \<open>a - b\<close> and \<open>a * b\<close> on doubles.\<close>

definition js_add :: "rat \<Rightarrow> rat \<Rightarrow> rat" where
  "js_add a b = to_double (a + b)"

definition js_sub :: "rat \<Rightarrow> rat \<Rightarrow> rat" where
  "js_sub a b = to_double (a - b)"

definition js_mul :: "rat \<Rightarrow> rat \<Rightarrow> rat" where
  "js_mul a b = to_double (a * b)"

text \<open>
  \<open>a % b\<close> on doubles: \<open>a\<close> minus \<open>b\<close> times the quotient truncated toward zero;
  the result is a double, so nothing is rounded.
\<close>

definition js_fmod :: "rat \<Rightarrow> rat \<Rightarrow> rat" where
  "js_fmod a b = a - b * of_int (if 0 \<le> a / b then \<lfloor>a / b\<rfloor> else \<lceil>a / b\<rceil>)"

text \<open>The parts of a string before and after each dot.\<close>

fun split_dot :: "string \<Rightarrow> string list" where
  "split_dot [] = [[]]"
| "split_dot (c # cs) =
     (if c = CHR ''.'' then [] # split_dot cs
      else (let r = split_dot cs in (c # hd r) # tl r))"

text \<open>
  \<open>Number(s)\<close> for digits with an optional fraction ("12", "12.5", "12.", ".5" and the
  empty string): the value of the literal, rounded to the nearest double.  The result is
  \<open>None\<close> for every other string: this model does not cover it.
\<close>

definition Number_double :: "string \<Rightarrow> rat option" where
  "Number_double s =
     (case split_dot s of
        [i] \<Rightarrow> if list_all is_digit i then Some (to_double (of_nat (dec i))) else None
      | [i, f] \<Rightarrow>
          if list_all is_digit i \<and> list_all is_digit f \<and> (i \<noteq> [] \<or> f \<noteq> [])
          then Some (to_double (of_nat (dec i) + of_nat (dec f) / 10 ^ length f))
          else None
      | _ \<Rightarrow> None)"

text \<open>
  \<open>toMinutes\<close> in double precision.  Only the first two fields are used; a missing
  second field is \<open>undefined\<close> and counts as 0, as does a field that converts to 0.  The
  result is \<open>None\<close> when one of the two fields is not covered.
\<close>

definition toMinutes_double :: "string option \<Rightarrow> rat option" where
  "toMinutes_double hhmm = (case hhmm of
       None \<Rightarrow> Some 0
     | Some s \<Rightarrow>
         if s = [] then Some 0
         else (let fields = split_colon s;
                   h = Number_double (hd fields);
                   m = (if 1 < length fields then Number_double (fields ! 1) else Some 0)
               in case (h, m) of
                    (Some h, Some m) \<Rightarrow> Some (js_add (js_mul h 60) m)
                  | _ \<Rightarrow> None))"

text \<open>The callback of \<open>sumDayMinutes\<close> and the duration of the CSV export, in double precision.\<close>

definition sumDayStep_double :: "rat \<Rightarrow> TimePair \<Rightarrow> rat option" where
  "sumDayStep_double acc p =
     (if \<not> truthy (start p) \<or> \<not> truthy (end_hhmm p) then Some acc
      else (case (toMinutes_double (end_hhmm p), toMinutes_double (start p)) of
              (Some e, Some s) \<Rightarrow>
                (let dm = js_sub e s;
                     dm = (if dm < 0 then js_add dm (24 * 60) else dm)
                 in Some (js_add acc dm))
            | _ \<Rightarrow> None))"

definition csvDuration_double :: "TimePair \<Rightarrow> rat option" where
  "csvDuration_double p =
     (if truthy (start p) \<and> truthy (end_hhmm p)
      then (case (toMinutes_double (end_hhmm p), toMinutes_double (start p)) of
              (Some e, Some s) \<Rightarrow> Some (js_fmod (js_add (js_sub e s) 1440) 1440)
            | _ \<Rightarrow> None)
      else Some 0)"

text \<open>
  The first two fields of a time consist of decimal digits; an absent time counts as such.
  Then \<open>toMinutes\<close> is an integer.
\<close>

definition digit_fields :: "string option \<Rightarrow> bool" where
  "digit_fields hhmm = (case hhmm of
       None \<Rightarrow> True
     | Some s \<Rightarrow> list_all (list_all is_digit) (take 2 (split_colon s)))"


section \<open>Lemmas on the time arithmetic\<close>

lemma digit_char_val: "is_digit c \<Longrightarrow> digit_char (digit_val c) = c \<and> digit_val c < 10"
  by (auto simp: is_digit_def digit_char_def digit_val_def)

lemma is_digit_not_colon: "is_digit c \<Longrightarrow> c \<noteq> CHR '':''"
  by (auto simp: is_digit_def)

lemma digit_val_0: "digit_val a = 0 \<Longrightarrow> is_digit a \<Longrightarrow> a = CHR ''0''"
  by (auto simp: is_digit_def digit_val_def)

lemma toString_lt10: "n < 10 \<Longrightarrow> toString n = [digit_char n]"
  by (simp add: toString.simps)

lemma toString_lt100:
  "10 \<le> n \<Longrightarrow> n < 100 \<Longrightarrow> toString n = [digit_char (n div 10), digit_char (n mod 10)]"
  by (subst toString.simps) (simp add: toString_lt10)

lemma padStart_two_digits:
  assumes "is_digit a" "is_digit b"
  shows "padStart 2 CHR ''0'' (toString (10 * digit_val a + digit_val b)) = [a, b]"
proof (cases "digit_val a = 0")
  case True
  with assms show ?thesis
    using digit_char_val [of b] digit_val_0 [of a]
    by (simp add: toString_lt10 padStart_def)
next
  case False
  let ?n = "10 * digit_val a + digit_val b"
  from assms have lt: "digit_val a < 10" "digit_val b < 10"
    using digit_char_val by blast+
  with False have "10 \<le> ?n" "?n < 100" by simp_all
  then have "toString ?n = [digit_char (?n div 10), digit_char (?n mod 10)]"
    by (rule toString_lt100)
  moreover from lt have "?n div 10 = digit_val a" "?n mod 10 = digit_val b" by simp_all
  ultimately show ?thesis
    using assms digit_char_val by (simp add: padStart_def)
qed

lemma Number_two_digits:
  "is_digit a \<Longrightarrow> is_digit b \<Longrightarrow> Number [a, b] = Num (int (10 * digit_val a + digit_val b))"
  by (simp add: Number_def dec_def)

lemma split_colon_hhmm:
  "is_digit a \<Longrightarrow> is_digit b \<Longrightarrow> is_digit d \<Longrightarrow> is_digit e \<Longrightarrow>
   split_colon [a, b, CHR '':'', d, e] = [[a, b], [d, e]]"
  by (simp add: is_digit_not_colon)

lemma toMinutes_hhmm:
  assumes "is_digit a" "is_digit b" "is_digit d" "is_digit e"
  shows "toMinutes (Some [a, b, CHR '':'', d, e]) =
         int (60 * (10 * digit_val a + digit_val b) + (10 * digit_val d + digit_val e))"
  using assms
  by (simp add: toMinutes_def split_colon_hhmm Number_two_digits at_index_def or_zero_def
           del: split_colon.simps)

lemma valid_hhmmE:
  assumes "valid_hhmm x"
  obtains a b d e where "x = [a, b, CHR '':'', d, e]" "is_digit a" "is_digit b" "is_digit d"
    "is_digit e" "10 * digit_val a + digit_val b \<le> 23" "10 * digit_val d + digit_val e \<le> 59"
  using assms unfolding valid_hhmm_def
  by (auto split: list.splits)

lemma divmod60: "(M::nat) < 60 \<Longrightarrow> (60 * H + M) div 60 = H \<and> (60 * H + M) mod 60 = M"
  by simp

lemma minutesToHHMM_toMinutes:
  assumes "valid_hhmm x"
  shows "minutesToHHMM (toMinutes (Some x)) = x"
proof -
  from assms obtain a b d e where x: "x = [a, b, CHR '':'', d, e]"
    and dg: "is_digit a" "is_digit b" "is_digit d" "is_digit e"
    and hb: "10 * digit_val a + digit_val b \<le> 23"
    and mb: "10 * digit_val d + digit_val e \<le> 59"
    by (rule valid_hhmmE)
  let ?H = "10 * digit_val a + digit_val b"
  let ?M = "10 * digit_val d + digit_val e"
  have t: "toMinutes (Some x) = int (60 * ?H + ?M)"
    unfolding x using dg by (rule toMinutes_hhmm)
  have dv: "(60 * ?H + ?M) div 60 = ?H" "(60 * ?H + ?M) mod 60 = ?M"
    using mb divmod60 [of ?M ?H] by simp_all
  have "minutesToHHMM (toMinutes (Some x)) = minutesToHHMM (int (60 * ?H + ?M))"
    by (simp only: t)
  also have "\<dots> = padStart 2 CHR ''0'' (toString ?H) @ '':'' @ padStart 2 CHR ''0'' (toString ?M)"
    unfolding minutesToHHMM_def Let_def nat_int abs_of_nat dv
    by simp
  also have "\<dots> = [a, b] @ '':'' @ [d, e]"
    using dg by (simp only: padStart_two_digits)
  also have "\<dots> = x"
    by (simp add: x)
  finally show ?thesis .
qed

lemma minutesToHHMM_negative:
  assumes "mins < 0"
  shows "minutesToHHMM mins =
         ''-'' @ padStart 2 CHR ''0'' (toString (nat \<bar>mins\<bar> div 60)) @ '':''
              @ padStart 2 CHR ''0'' (toString (nat \<bar>mins\<bar> mod 60))"
    and "minutesToHHMM mins = CHR ''-'' # minutesToHHMM (- mins)"
  using assms by (simp_all add: minutesToHHMM_def Let_def)


section \<open>Lemmas on durations and aggregation\<close>




lemma toMinutes_2200: "toMinutes (Some ''22:00'') = 1320"
  by (simp add: toMinutes_def Number_def dec_def is_digit_def digit_val_def at_index_def or_zero_def)
lemma toMinutes_0600: "toMinutes (Some ''06:00'') = 360"
  by (simp add: toMinutes_def Number_def dec_def is_digit_def digit_val_def at_index_def or_zero_def)

lemma foldl_add_sumDayMinutes:
  "foldl (\<lambda>acc e. acc + sumDayMinutes e) a es = a + sum_list (map sumDayMinutes es)"
  by (induction es arbitrary: a) simp_all

lemma wrap_mod_1440:
  assumes "- 1439 \<le> (d::int)" "d \<le> 1439"
  shows "(d + 1440) mod 1440 = (if d < 0 then d + 1440 else d)"
proof (cases "d < 0")
  case True
  with assms have "0 \<le> d + 1440" "d + 1440 < 1440" by simp_all
  then have "(d + 1440) mod 1440 = d + 1440" by (rule mod_pos_pos_trivial)
  with True show ?thesis by simp
next
  case False
  with assms have "0 \<le> d" "d < 1440" by simp_all
  then have "d mod 1440 = d" by (rule mod_pos_pos_trivial)
  with False show ?thesis by simp
qed

lemma js_rem_pos: "0 \<le> a \<Longrightarrow> 0 < b \<Longrightarrow> js_rem a b = a mod b"
  by (cases "a = 0") (simp_all add: js_rem_def)


section \<open>Lemmas on splitting a time string\<close>

lemma split_colon_not_Nil: "split_colon s \<noteq> []"
  by (induction s) (simp_all add: Let_def)

lemma split_colon_no_colon: "CHR '':'' \<notin> set s \<Longrightarrow> split_colon s = [s]"
  by (induction s) (auto simp: Let_def)

lemma split_colon_first_field:
  "CHR '':'' \<notin> set h \<Longrightarrow> split_colon (h @ CHR '':'' # r) = h # split_colon r"
  by (induction h) (auto simp: Let_def)

lemma digits_no_colon: "list_all is_digit s \<Longrightarrow> CHR '':'' \<notin> set s"
  using is_digit_not_colon by (auto simp: list_all_iff)

lemma toMinutes_two_fields:
  assumes "list_all is_digit h" "list_all is_digit m"
  shows "toMinutes (Some (h @ '':'' @ m)) = 60 * int (dec h) + int (dec m)"
proof -
  have "split_colon (h @ '':'' @ m) = [h, m]"
    using assms by (simp add: split_colon_first_field split_colon_no_colon digits_no_colon)
  then show ?thesis
    using assms by (simp add: toMinutes_def Number_def at_index_def or_zero_def)
qed

lemma toMinutes_one_field:
  assumes "list_all is_digit h" "h \<noteq> []"
  shows "toMinutes (Some h) = 60 * int (dec h)"
proof -
  have "split_colon h = [h]"
    using assms by (simp add: split_colon_no_colon digits_no_colon)
  then show ?thesis
    using assms by (simp add: toMinutes_def Number_def at_index_def or_zero_def)
qed

section \<open>Lemmas on the mutations\<close>

lemma findIndex_find: "find P xs = map_option (\<lambda>i. xs ! i) (findIndex P xs)"
  by (induction xs) (simp_all add: option.map_comp comp_def)

lemma findIndex_less: "findIndex P xs = Some i \<Longrightarrow> i < length xs"
  by (induction xs arbitrary: i) (auto split: if_splits)

lemma list_update_neq: "i < length xs \<Longrightarrow> x \<noteq> xs ! i \<Longrightarrow> xs[i := x] \<noteq> xs"
  by (metis nth_list_update_eq)

lemma addStartNow_unchanged_iff:
  "addStartNow now d es = es \<longleftrightarrow>
     (\<exists>e. find (\<lambda>e. date e = d) es = Some e \<and> pairs e \<noteq> []
          \<and> \<not> truthy (end_hhmm (last (pairs e))))"
proof (cases "findIndex (\<lambda>e. date e = d) es")
  case None
  then show ?thesis
    by (simp add: addStartNow_def findIndex_find)
next
  case (Some idx)
  then have lt: "idx < length es" by (rule findIndex_less)
  let ?e = "es ! idx"
  let ?e' = "?e\<lparr>pairs := pairs ?e @ [\<lparr>start = Some now, end_hhmm = None\<rparr>]\<rparr>"
  have f: "find (\<lambda>e. date e = d) es = Some ?e"
    by (simp add: findIndex_find Some)
  have "pairs ?e' \<noteq> pairs ?e" by simp
  then have "?e' \<noteq> ?e" by metis
  with lt have "es[idx := ?e'] \<noteq> es" by (rule list_update_neq)
  then show ?thesis
    by (auto simp: addStartNow_def Some f Let_def)
qed

lemma hasOpenPair_iff:
  "hasOpenPair d es \<longleftrightarrow>
     (\<exists>p \<in> set (pairs (todayEntry d es)). truthy (start p) \<and> \<not> truthy (end_hhmm p))"
  by (simp add: hasOpenPair_def list_ex_iff)

section \<open>Lemmas on the import\<close>

lemma getProp_JNull_iff: "getProp data key = Inl e \<longleftrightarrow> data = JNull \<and> e = TypeError"
  by (cases data) auto

lemma handleImportJSON_unparseable:
  "handleImportJSON (Some (Inl err)) st = (st, Some Invalid_JSON_file)"
  by (simp add: handleImportJSON_def)

lemma handleImportJSON_null:
  "handleImportJSON (Some (Inr JNull)) st = (st, Some Invalid_JSON_file)"
  by (simp add: handleImportJSON_def)

lemma handleImportJSON_fields:
  assumes "data \<noteq> JNull"
  shows "handleImportJSON (Some (Inr data)) st =
     (\<lparr>entries = (case getProp data ''entries'' of
                     Inr (Some (JArr xs)) \<Rightarrow> xs | _ \<Rightarrow> entries st),
       dailyTargetMinutes = (case getProp data ''dailyTargetMinutes'' of
                     Inr (Some (JNum n)) \<Rightarrow> n | _ \<Rightarrow> dailyTargetMinutes st)\<rparr>, None)"
proof -
  obtain a where a: "getProp data ''entries'' = Inr a"
    using assms getProp_JNull_iff [of data "''entries''"] by (cases "getProp data ''entries''") auto
  obtain b where b: "getProp data ''dailyTargetMinutes'' = Inr b"
    using assms getProp_JNull_iff [of data "''dailyTargetMinutes''"]
    by (cases "getProp data ''dailyTargetMinutes''") auto
  show ?thesis
    by (simp add: handleImportJSON_def a b Let_def split: option.split json.split)
qed

section \<open>Lemmas on the week\<close>

text \<open>Weekdays of day numbers: day \<open>D - (D + 3) mod 7\<close> is the Monday on or before day \<open>D\<close>.\<close>

lemma monday_based_weekday: "(((D::int) + 4) mod 7 + 6) mod 7 = (D + 3) mod 7"
proof -
  have "((D + 4) mod 7 + 6) mod 7 = (D + 4 + 6) mod 7"
    by (rule mod_add_left_eq)
  also have "D + 4 + 6 = D + 3 + 7" by simp
  also have "(D + 3 + 7) mod 7 = (D + 3) mod 7"
    by (rule mod_add_self2)
  finally show ?thesis .
qed

lemma monday_day_number: "((D::int) - (D + 3) mod 7 + 4) mod 7 = 1"
proof -
  have "D - (D + 3) mod 7 + 4 = ((D + 3) - (D + 3) mod 7) + 1" by simp
  also have "\<dots> = 7 * ((D + 3) div 7) + 1"
    by (simp only: minus_mod_eq_mult_div)
  finally have "(D - (D + 3) mod 7 + 4) mod 7 = (7 * ((D + 3) div 7) + 1) mod 7"
    by (rule arg_cong)
  also have "\<dots> = 1" by simp
  finally show ?thesis .
qed

text \<open>
  The UTC date of a local midnight: the date itself in a zone at or west of UTC, the day
  before in a zone east of UTC.
\<close>

lemma utc_day_of_local_midnight:
  fixes n tz :: int
  assumes "- 1440 < tz" "tz \<le> 1440"
  shows "(n * 1440 - tz) div 1440 = (if 0 < tz then n - 1 else n)"
proof (cases "0 < tz")
  case True
  have "n * 1440 - tz = 1440 * (n - 1) + (1440 - tz)" by simp
  moreover have "0 \<le> 1440 - tz" "1440 - tz < 1440" using True assms by simp_all
  ultimately have "(n * 1440 - tz) div 1440 = n - 1"
    by (rule int_div_pos_eq)
  with True show ?thesis by simp
next
  case False
  have "n * 1440 - tz = 1440 * n + (- tz)" by simp
  moreover have "0 \<le> - tz" "- tz < 1440" using False assms by simp_all
  ultimately have "(n * 1440 - tz) div 1440 = n"
    by (rule int_div_pos_eq)
  with False show ?thesis by simp
qed

lemma getDay_newDate:
  "getDay tz (newDate tz s) = ((case parse_ymd s of (y, m, d) \<Rightarrow> days_from_civil y m d) + 4) mod 7"
  by (simp add: getDay_def newDate_def split: prod.split)

lemma startOfWeek_day_number:
  assumes "- 1440 < tz" "tz \<le> 1440"
  shows "startOfWeek tz s =
     (let D = (case parse_ymd s of (y, m, d) \<Rightarrow> days_from_civil y m d);
          M = D - (D + 3) mod 7
      in format_ymd (civil_from_days (if 0 < tz then M - 1 else M)))"
proof -
  define D where "D = (case parse_ymd s of (y, m, d) \<Rightarrow> days_from_civil y m d)"
  have nd: "newDate tz s = D * 1440 - tz"
    by (simp add: newDate_def D_def split: prod.split)
  have gd: "getDay tz (newDate tz s) = (D + 4) mod 7"
    by (simp add: getDay_newDate D_def)
  have day: "((D + 4) mod 7 + 6) mod 7 = (D + 3) mod 7"
    by (rule monday_based_weekday)
  have "addDays (D * 1440 - tz) (- ((D + 3) mod 7)) = (D - (D + 3) mod 7) * 1440 - tz"
    by (simp add: addDays_def algebra_simps)
  then have "isoDate (addDays (D * 1440 - tz) (- ((D + 3) mod 7)))
      = format_ymd (civil_from_days (if 0 < tz then D - (D + 3) mod 7 - 1 else D - (D + 3) mod 7))"
    using utc_day_of_local_midnight [OF assms, of "D - (D + 3) mod 7"]
    by (simp only: isoDate_def)
  then show ?thesis
    unfolding startOfWeek_def Let_def gd day D_def [symmetric]
    by (simp only: nd)
qed

text \<open>
  \<open>todayYMD\<close> at the local midnight of a date yields that date in every zone: it shifts
  the time value to local time before it takes the UTC date, which \<open>startOfWeek\<close> and
  \<open>weekEntries\<close> do not.
\<close>

lemma todayYMD_local_midnight:
  "todayYMD tz (newDate tz s) =
     format_ymd (civil_from_days (case parse_ymd s of (y, m, d) \<Rightarrow> days_from_civil y m d))"
  by (simp add: todayYMD_def newDate_def isoDate_def split: prod.split)

text \<open>The Sunday 2024-01-07 in a zone at UTC+1 and at UTC.\<close>

lemma parse_ymd_examples:
  "parse_ymd ''2024-01-07'' = (2024, 1, 7)"
  "parse_ymd ''2023-12-31'' = (2023, 12, 31)"
  by (simp_all add: parse_ymd_def dec_def digit_val_def)

lemma days_from_civil_examples:
  "days_from_civil 2024 1 7 = 19729"
  "days_from_civil 2023 12 31 = 19722"
  unfolding days_from_civil_def Let_def by simp_all

lemma newDate_examples:
  "newDate 60 ''2024-01-07'' = 19729 * 1440 - 60"
  "newDate 60 ''2023-12-31'' = 19722 * 1440 - 60"
  "newDate 0 ''2024-01-07'' = 19729 * 1440"
  by (simp_all add: newDate_def parse_ymd_examples days_from_civil_examples)

lemma civil_from_days_examples:
  "civil_from_days 19721 = (2023, 12, 30)"
  "civil_from_days 19722 = (2023, 12, 31)"
  "civil_from_days 19723 = (2024, 1, 1)"
  "civil_from_days 19724 = (2024, 1, 2)"
  "civil_from_days 19725 = (2024, 1, 3)"
  "civil_from_days 19726 = (2024, 1, 4)"
  "civil_from_days 19727 = (2024, 1, 5)"
  unfolding civil_from_days_def Let_def by simp_all

lemma toString_examples:
  "toString 1 = ''1''" "toString 2 = ''2''" "toString 3 = ''3''" "toString 4 = ''4''"
  "toString 5 = ''5''" "toString 12 = ''12''" "toString 30 = ''30''" "toString 31 = ''31''"
  "toString 2023 = ''2023''" "toString 2024 = ''2024''" "toString (Suc 0) = ''1''"
  by (simp_all add: toString.simps digit_char_def)

lemma format_ymd_examples:
  "format_ymd (2023, 12, 30) = ''2023-12-30''"
  "format_ymd (2023, 12, 31) = ''2023-12-31''"
  "format_ymd (2024, 1, 1) = ''2024-01-01''"
  "format_ymd (2024, 1, 2) = ''2024-01-02''"
  "format_ymd (2024, 1, 3) = ''2024-01-03''"
  "format_ymd (2024, 1, 4) = ''2024-01-04''"
  "format_ymd (2024, 1, 5) = ''2024-01-05''"
  by (simp_all add: format_ymd_def padStart_def toString_examples)

lemma isoDate_examples:
  "isoDate (19722 * 1440 - 60) = ''2023-12-30''"
  "isoDate (19723 * 1440 - 60) = ''2023-12-31''"
  "isoDate (19724 * 1440 - 60) = ''2024-01-01''"
  "isoDate (19725 * 1440 - 60) = ''2024-01-02''"
  "isoDate (19726 * 1440 - 60) = ''2024-01-03''"
  "isoDate (19727 * 1440 - 60) = ''2024-01-04''"
  "isoDate (19728 * 1440 - 60) = ''2024-01-05''"
  "isoDate (19723 * 1440) = ''2024-01-01''"
  by (simp_all add: isoDate_def civil_from_days_examples format_ymd_examples)

lemma startOfWeek_east: "startOfWeek 60 ''2024-01-07'' = ''2023-12-31''"
  unfolding startOfWeek_def Let_def newDate_examples
  by (simp add: getDay_def addDays_def isoDate_examples [simplified])

lemma startOfWeek_utc: "startOfWeek 0 ''2024-01-07'' = ''2024-01-01''"
  unfolding startOfWeek_def Let_def newDate_examples
  by (simp add: getDay_def addDays_def isoDate_examples [simplified])

lemma getDay_east: "getDay 60 (newDate 60 ''2023-12-31'') = 0"
  unfolding newDate_examples by (simp add: getDay_def)

lemma weekEntries_east:
  "map date (weekEntries 60 ''2024-01-07'' []) =
    [''2023-12-30'', ''2023-12-31'', ''2024-01-01'', ''2024-01-02'',
     ''2024-01-03'', ''2024-01-04'', ''2024-01-05'']"
  unfolding weekEntries_def Let_def startOfWeek_east newDate_examples
  by (simp add: addDays_def upt_rec isoDate_examples [simplified])


section \<open>Lemmas on double precision\<close>

text \<open>Rounding leaves an integer below \<open>2^53\<close> as it is.\<close>

lemma binary_exponent_numeral:
  "binary_exponent (numeral k) x =
     (if 2 \<le> x then binary_exponent (pred_numeral k) (x / 2) + 1
      else if x < 1 then binary_exponent (pred_numeral k) (x * 2) - 1
      else 0)"
  by (simp add: numeral_eq_Suc)

lemma binary_exponent_le:
  "x < 2 ^ Suc m \<Longrightarrow> binary_exponent n x \<le> int m"
proof (induction n arbitrary: x m)
  case 0
  then show ?case by simp
next
  case (Suc n)
  show ?case
  proof (cases "2 \<le> x")
    case True
    with Suc.prems obtain m' where m: "m = Suc m'"
      by (cases m) auto
    with Suc.prems have "x / 2 < 2 ^ Suc m'" by simp
    then have "binary_exponent n (x / 2) \<le> int m'" by (rule Suc.IH)
    with True m show ?thesis by simp
  next
    case False
    show ?thesis
    proof (cases "x < 1")
      case True
      then have "x * 2 < 2 ^ Suc 0" by simp
      then have "binary_exponent n (x * 2) \<le> int 0" by (rule Suc.IH)
      with True False show ?thesis by simp
    next
      case F2: False
      with False show ?thesis by simp
    qed
  qed
qed

lemma round_half_even_of_int: "round_half_even (of_int z) = z"
  by (simp add: round_half_even_def)

lemma to_double_of_int:
  assumes "\<bar>n\<bar> < 2 ^ 53"
  shows "to_double (of_int n) = of_int n"
proof (cases "n = 0")
  case True
  then show ?thesis by (simp add: to_double_def)
next
  case False
  define k where "k = binary_exponent 1100 \<bar>of_int n\<bar>"
  have "\<bar>of_int n :: rat\<bar> = of_int \<bar>n\<bar>" by simp
  also have "\<dots> < of_int (2 ^ 53)"
    using assms by (simp only: of_int_less_iff)
  also have "\<dots> = 2 ^ Suc 52" by simp
  finally have "\<bar>of_int n :: rat\<bar> < 2 ^ Suc 52" .
  then have "k \<le> int 52" unfolding k_def by (rule binary_exponent_le)
  then have k: "k \<le> 52" by simp
  define j where "j = nat (52 - k)"
  have ulp: "pow2 (k - 52) = 1 / 2 ^ j"
    using k by (auto simp: pow2_def j_def)
  have "of_int n / pow2 (k - 52) = (of_int (n * 2 ^ j) :: rat)"
    by (simp add: ulp)
  then have "round_half_even (of_int n / pow2 (k - 52)) = n * 2 ^ j"
    by (simp only: round_half_even_of_int)
  then have "of_int (round_half_even (of_int n / pow2 (k - 52))) * pow2 (k - 52) = (of_int n :: rat)"
    by (simp add: ulp)
  with False show ?thesis
    by (simp add: to_double_def Let_def k_def)
qed

text \<open>On digit fields the double model gives the integers of the integer model.\<close>

lemma is_digit_not_dot: "is_digit c \<Longrightarrow> c \<noteq> CHR ''.''"
  by (auto simp: is_digit_def)

lemma split_dot_no_dot: "CHR ''.'' \<notin> set s \<Longrightarrow> split_dot s = [s]"
  by (induction s) (auto simp: Let_def)

lemma split_dot_digits: "list_all is_digit s \<Longrightarrow> split_dot s = [s]"
  using is_digit_not_dot by (intro split_dot_no_dot) (auto simp: list_all_iff)

lemma to_double_of_nat: "n < 2 ^ 53 \<Longrightarrow> to_double (of_nat n) = of_nat n"
  using to_double_of_int [of "int n"] by simp

lemma Number_double_digits:
  "list_all is_digit f \<Longrightarrow> dec f < 2 ^ 53 \<Longrightarrow> Number_double f = Some (of_nat (dec f))"
  by (simp add: Number_double_def split_dot_digits to_double_of_nat)

lemma js_int_ops:
  "\<bar>a + b\<bar> < 2 ^ 53 \<Longrightarrow> js_add (of_int a) (of_int b) = of_int (a + b)"
  "\<bar>a - b\<bar> < 2 ^ 53 \<Longrightarrow> js_sub (of_int a) (of_int b) = of_int (a - b)"
  "\<bar>a * b\<bar> < 2 ^ 53 \<Longrightarrow> js_mul (of_int a) (of_int b) = of_int (a * b)"
  using to_double_of_int [of "a + b"] to_double_of_int [of "a - b"] to_double_of_int [of "a * b"]
  by (simp_all add: js_add_def js_sub_def js_mul_def)

lemma toMinutes_fields:
  "s \<noteq> [] \<Longrightarrow> toMinutes (Some s) =
     or_zero (at_index (map Number (split_colon s)) 0) * 60
     + or_zero (at_index (map Number (split_colon s)) 1)"
  by (simp add: toMinutes_def Let_def)

lemma toMinutes_double_digits:
  assumes "digit_fields x" "0 \<le> toMinutes x" "toMinutes x \<le> 1439"
  shows "toMinutes_double x = Some (of_int (toMinutes x))"
proof (cases x)
  case None
  then show ?thesis by (simp add: toMinutes_double_def toMinutes_def)
next
  case (Some s)
  show ?thesis
  proof (cases "s = []")
    case True
    with Some show ?thesis by (simp add: toMinutes_double_def toMinutes_def)
  next
    case False
    obtain h rest where f: "split_colon s = h # rest"
      using split_colon_not_Nil [of s] by (cases "split_colon s") auto
    from assms(1) Some f have dh: "list_all is_digit h"
      by (simp add: digit_fields_def)
    show ?thesis
    proof (cases rest)
      case Nil
      with f False have t: "toMinutes (Some s) = int (dec h) * 60"
        using dh by (simp add: toMinutes_fields at_index_def or_zero_def Number_def)
      with assms(3) Some have "dec h < 2 ^ 53" by simp
      with dh have nh: "Number_double h = Some (of_int (int (dec h)))"
        by (simp add: Number_double_digits)
      have "js_mul (of_int (int (dec h))) (of_int 60) = of_int (int (dec h) * 60)"
        using assms(3) Some t by (intro js_int_ops) simp
      moreover have "js_add (of_int (int (dec h) * 60)) (of_int 0) = of_int (int (dec h) * 60 + 0)"
        using assms(3) Some t by (intro js_int_ops) simp
      ultimately show ?thesis
        using Some False f Nil t nh by (simp add: toMinutes_double_def)
    next
      case (Cons m rest')
      from assms(1) Some f Cons have dm: "list_all is_digit m"
        by (simp add: digit_fields_def)
      from f Cons False have t: "toMinutes (Some s) = int (dec h) * 60 + int (dec m)"
        using dh dm by (simp add: toMinutes_fields at_index_def or_zero_def Number_def)
      with assms(3) Some have b: "dec h < 2 ^ 53" "dec m < 2 ^ 53" by simp_all
      with dh dm have nh: "Number_double h = Some (of_int (int (dec h)))"
        and nm: "Number_double m = Some (of_int (int (dec m)))"
        by (simp_all add: Number_double_digits)
      have "js_mul (of_int (int (dec h))) (of_int 60) = of_int (int (dec h) * 60)"
        using assms(3) Some t by (intro js_int_ops) simp
      moreover have "js_add (of_int (int (dec h) * 60)) (of_int (int (dec m)))
           = of_int (int (dec h) * 60 + int (dec m))"
        using assms(3) Some t by (intro js_int_ops) simp
      ultimately show ?thesis
        using Some False f Cons t nh nm by (simp add: toMinutes_double_def)
    qed
  qed
qed

lemma js_fmod_of_int:
  assumes "0 \<le> a" "0 < b"
  shows "js_fmod (of_int a) (of_int b) = of_int (a mod b)"
proof -
  have "(0::rat) \<le> of_int a / of_int b" using assms by simp
  moreover have "\<lfloor>(of_int a :: rat) / of_int b\<rfloor> = a div b"
    by (rule floor_divide_of_int_eq)
  ultimately have "js_fmod (of_int a) (of_int b) = of_int a - of_int b * of_int (a div b)"
    by (simp add: js_fmod_def)
  also have "\<dots> = of_int (a - b * (a div b))" by simp
  also have "a - b * (a div b) = a mod b" by (simp add: minus_mult_div_eq_mod)
  finally show ?thesis .
qed

text \<open>Evaluating the rounding at the numbers of the pair 00:00 to 00:00.1.\<close>

lemma round_half_even_divide:
  assumes "0 < b"
  shows "round_half_even (of_int a / of_int b) =
     (if 2 * (a mod b) < b then a div b
      else if b < 2 * (a mod b) then a div b + 1
      else if even (a div b) then a div b else a div b + 1)"
proof -
  have fl: "\<lfloor>(of_int a :: rat) / of_int b\<rfloor> = a div b"
    by (rule floor_divide_of_int_eq)
  have "a = b * (a div b) + a mod b" by simp
  then have "(of_int a :: rat) = of_int b * of_int (a div b) + of_int (a mod b)"
    by (metis of_int_add of_int_mult)
  then have "(of_int a :: rat) / of_int b = of_int (a div b) + of_int (a mod b) / of_int b"
    using assms by (simp add: field_simps)
  then have d: "(of_int a :: rat) / of_int b - of_int (a div b) = of_int (a mod b) / of_int b"
    by simp
  have lt: "(of_int (a mod b) :: rat) / of_int b < 1 / 2 \<longleftrightarrow> 2 * (a mod b) < b"
  proof -
    have "(of_int (a mod b) :: rat) / of_int b < 1 / 2 \<longleftrightarrow>
          (of_int (2 * (a mod b)) :: rat) < of_int b"
      using assms by (simp add: field_simps)
    then show ?thesis by (simp only: of_int_less_iff)
  qed
  have gt: "1 / 2 < (of_int (a mod b) :: rat) / of_int b \<longleftrightarrow> b < 2 * (a mod b)"
  proof -
    have "1 / 2 < (of_int (a mod b) :: rat) / of_int b \<longleftrightarrow>
          (of_int b :: rat) < of_int (2 * (a mod b))"
      using assms by (simp add: field_simps)
    then show ?thesis by (simp only: of_int_less_iff)
  qed
  show ?thesis
    unfolding round_half_even_def Let_def fl d lt gt ..
qed

lemma round_half_even_numeral_divide:
  "round_half_even (numeral a / numeral b) =
     (if 2 * (numeral a mod numeral b) < (numeral b :: int) then numeral a div numeral b
      else if (numeral b :: int) < 2 * (numeral a mod numeral b) then numeral a div numeral b + 1
      else if even (numeral a div numeral b :: int) then numeral a div numeral b
      else numeral a div numeral b + 1)"
  using round_half_even_divide [of "numeral b" "numeral a"] by simp

lemma round_half_even_numeral: "round_half_even (numeral a) = numeral a"
  using round_half_even_of_int [of "numeral a"] by simp

lemma to_double_eval:
  "x \<noteq> 0 \<Longrightarrow> binary_exponent 1100 \<bar>x\<bar> = e \<Longrightarrow>
   to_double x = of_int (round_half_even (x / pow2 (e - 52))) * pow2 (e - 52)"
  by (simp add: to_double_def Let_def)

lemma to_double_tenth: "to_double (1 / 10) = 3602879701896397 / 36028797018963968"
proof -
  have e: "binary_exponent 1100 \<bar>1 / 10 :: rat\<bar> = - 4"
    by (simp add: binary_exponent_numeral)
  have "to_double (1 / 10) =
      of_int (round_half_even ((1 / 10) / pow2 (- 4 - 52))) * pow2 (- 4 - 52)"
    by (rule to_double_eval [OF _ e]) simp
  also have "(1 / 10 :: rat) / pow2 (- 4 - 52) = 36028797018963968 / 5"
    by (simp add: pow2_def)
  also have "round_half_even (36028797018963968 / 5) = 7205759403792794"
    by (simp add: round_half_even_numeral_divide)
  finally show ?thesis by (simp add: pow2_def)
qed

lemma to_double_tenth_idem:
  "to_double (3602879701896397 / 36028797018963968) = 3602879701896397 / 36028797018963968"
proof -
  have e: "binary_exponent 1100 \<bar>3602879701896397 / 36028797018963968 :: rat\<bar> = - 4"
    by (simp add: binary_exponent_numeral)
  have "to_double (3602879701896397 / 36028797018963968) =
      of_int (round_half_even ((3602879701896397 / 36028797018963968) / pow2 (- 4 - 52)))
        * pow2 (- 4 - 52)"
    by (rule to_double_eval [OF _ e]) simp
  also have "(3602879701896397 / 36028797018963968 :: rat) / pow2 (- 4 - 52) = 7205759403792794"
    by (simp add: pow2_def)
  also have "round_half_even 7205759403792794 = 7205759403792794"
    by (rule round_half_even_numeral)
  finally show ?thesis by (simp add: pow2_def)
qed

lemma to_double_1440_tenth:
  "to_double (3602879701896397 / 36028797018963968 + 1440) = 3166813390320435 / 2199023255552"
proof -
  have s: "(3602879701896397 / 36028797018963968 + 1440 :: rat)
      = 51885070587010010317 / 36028797018963968"
    by simp
  have e: "binary_exponent 1100 \<bar>51885070587010010317 / 36028797018963968 :: rat\<bar> = 10"
    by (simp add: binary_exponent_numeral)
  have "to_double (51885070587010010317 / 36028797018963968) =
      of_int (round_half_even ((51885070587010010317 / 36028797018963968) / pow2 (10 - 52)))
        * pow2 (10 - 52)"
    by (rule to_double_eval [OF _ e]) simp
  also have "(51885070587010010317 / 36028797018963968 :: rat) / pow2 (10 - 52)
      = 51885070587010010317 / 8192"
    by (simp add: pow2_def)
  also have "round_half_even (51885070587010010317 / 8192) = 6333626780640870"
    by (simp add: round_half_even_numeral_divide)
  finally show ?thesis unfolding s by (simp add: pow2_def)
qed

lemma Number_double_examples:
  "Number_double ''00'' = Some 0"
  "Number_double ''00.1'' = Some (3602879701896397 / 36028797018963968)"
proof -
  show "Number_double ''00'' = Some 0"
    by (simp add: Number_double_def is_digit_def dec_def digit_val_def to_double_def)
  have "Number_double ''00.1'' = Some (to_double (1 / 10))"
    by (simp add: Number_double_def is_digit_def dec_def digit_val_def)
  then show "Number_double ''00.1'' = Some (3602879701896397 / 36028797018963968)"
    by (simp only: to_double_tenth)
qed

lemma toMinutes_double_examples:
  "toMinutes_double (Some ''00:00'') = Some 0"
  "toMinutes_double (Some ''00:00.1'') = Some (3602879701896397 / 36028797018963968)"
proof -
  have z: "to_double 0 = 0" by (simp add: to_double_def)
  have c1: "split_colon ''00:00'' = [''00'', ''00'']"
    and c2: "split_colon ''00:00.1'' = [''00'', ''00.1'']"
    by simp_all
  show "toMinutes_double (Some ''00:00'') = Some 0"
    unfolding toMinutes_double_def Let_def c1
    by (simp add: Number_double_examples js_add_def js_mul_def z)
  show "toMinutes_double (Some ''00:00.1'') = Some (3602879701896397 / 36028797018963968)"
    unfolding toMinutes_double_def Let_def c2
    by (simp add: Number_double_examples js_add_def js_mul_def z to_double_tenth_idem)
qed

lemma js_fmod_example:
  "js_fmod (3166813390320435 / 2199023255552) 1440 = 219902325555 / 2199023255552"
proof -
  have q: "(3166813390320435 / 2199023255552 :: rat) / 1440 = 211120892688029 / 211106232532992"
    by simp
  have "\<lfloor>211120892688029 / 211106232532992 :: rat\<rfloor> = 1"
    by (rule floor_unique) simp_all
  then show ?thesis
    unfolding js_fmod_def q by simp
qed


section \<open>The claims\<close>

text \<open>
  C1, as the code has it: the import applies the two fields independently.  A text that
  is no JSON, and the document \<open>null\<close>, leave the state unchanged and raise the alert.
  For every other document, \<open>entries\<close> is replaced exactly when the document's
  \<open>entries\<close> is an array, \<open>dailyTargetMinutes\<close> exactly when the document's
  \<open>dailyTargetMinutes\<close> is a number, and no alert is raised.
\<close>

theorem C1_import_per_field:
  "handleImportJSON (Some (Inl err)) st = (st, Some Invalid_JSON_file)
   \<and> handleImportJSON (Some (Inr JNull)) st = (st, Some Invalid_JSON_file)
   \<and> (data \<noteq> JNull \<longrightarrow>
        handleImportJSON (Some (Inr data)) st =
          (\<lparr>entries = (case getProp data ''entries'' of
                          Inr (Some (JArr xs)) \<Rightarrow> xs | _ \<Rightarrow> entries st),
            dailyTargetMinutes = (case getProp data ''dailyTargetMinutes'' of
                          Inr (Some (JNum n)) \<Rightarrow> n | _ \<Rightarrow> dailyTargetMinutes st)\<rparr>, None))"
  using handleImportJSON_fields [of data st]
  by (simp add: handleImportJSON_unparseable handleImportJSON_null)

theorem C1_import_per_field_witness:
  "handleImportJSON
     (Some (Inr (JObj [(''entries'', JArr [JObj [(''date'', JStr ''2024-01-08''), (''pairs'', JArr [])]]),
                       (''dailyTargetMinutes'', JNum 450)])))
     \<lparr>entries = [], dailyTargetMinutes = 480\<rparr>
   = (\<lparr>entries = [JObj [(''date'', JStr ''2024-01-08''), (''pairs'', JArr [])]],
       dailyTargetMinutes = 450\<rparr>, None)"
  using C1_import_per_field [where st = "\<lparr>entries = [], dailyTargetMinutes = 480\<rparr>"
     and data = "JObj [(''entries'', JArr [JObj [(''date'', JStr ''2024-01-08''), (''pairs'', JArr [])]]),
                       (''dailyTargetMinutes'', JNum 450)]"]
  by simp

text \<open>
  C1 fails as stated: a document with an array \<open>entries\<close> and a string
  \<open>dailyTargetMinutes\<close> replaces the entries and keeps the prior target, and a document
  with a string \<open>entries\<close> and a numeric \<open>dailyTargetMinutes\<close> replaces the target
  and keeps the prior entries.
\<close>

theorem C1_partial_import_counterexample:
  "handleImportJSON
     (Some (Inr (JObj [(''entries'', JArr [JObj [(''date'', JStr ''2024-01-08''), (''pairs'', JArr [])]]),
                       (''dailyTargetMinutes'', JStr ''450'')])))
     \<lparr>entries = [], dailyTargetMinutes = 480\<rparr>
   = (\<lparr>entries = [JObj [(''date'', JStr ''2024-01-08''), (''pairs'', JArr [])]],
       dailyTargetMinutes = 480\<rparr>, None)
   \<and> handleImportJSON
     (Some (Inr (JObj [(''entries'', JStr ''none''), (''dailyTargetMinutes'', JNum 450)])))
     \<lparr>entries = [JObj [(''date'', JStr ''2024-01-08''), (''pairs'', JArr [])]],
      dailyTargetMinutes = 480\<rparr>
   = (\<lparr>entries = [JObj [(''date'', JStr ''2024-01-08''), (''pairs'', JArr [])]],
       dailyTargetMinutes = 450\<rparr>, None)"
  by (simp add: handleImportJSON_def)

text \<open>
  C2, as the code has it: a document that parses and has no array \<open>entries\<close> leaves
  the prior entries unchanged; the alert is raised only when the document is \<open>null\<close>.
\<close>

theorem C2_import_without_entries:
  "\<not> entriesIsArray data \<longrightarrow>
     entries (fst (handleImportJSON (Some (Inr data)) st)) = entries st
     \<and> snd (handleImportJSON (Some (Inr data)) st)
         = (if data = JNull then Some Invalid_JSON_file else None)"
proof (cases "data = JNull")
  case True
  then show ?thesis by (simp add: handleImportJSON_null)
next
  case False
  then show ?thesis
    by (auto simp: handleImportJSON_fields entriesIsArray_def
             split: sum.splits option.splits json.splits)
qed

theorem C2_import_without_entries_witness:
  "\<not> entriesIsArray (JObj [(''records'', JArr [])])
   \<and> handleImportJSON (Some (Inr (JObj [(''records'', JArr [])])))
        \<lparr>entries = [JObj [(''date'', JStr ''2024-01-08''), (''pairs'', JArr [])]],
         dailyTargetMinutes = 480\<rparr>
     = (\<lparr>entries = [JObj [(''date'', JStr ''2024-01-08''), (''pairs'', JArr [])]],
         dailyTargetMinutes = 480\<rparr>, None)
   \<and> \<not> entriesIsArray JNull
   \<and> snd (handleImportJSON (Some (Inr JNull))
        \<lparr>entries = [], dailyTargetMinutes = 480\<rparr>) = Some Invalid_JSON_file"
  using C2_import_without_entries [of "JObj [(''records'', JArr [])]"
      "\<lparr>entries = [JObj [(''date'', JStr ''2024-01-08''), (''pairs'', JArr [])]],
         dailyTargetMinutes = 480\<rparr>"]
    C2_import_without_entries [of JNull "\<lparr>entries = [], dailyTargetMinutes = 480\<rparr>"]
  by (simp add: entriesIsArray_def handleImportJSON_def)

text \<open>
  C2 fails as stated: the document \<open>{"dailyTargetMinutes": 450}\<close> has no
  \<open>entries\<close>; the import raises no alert (and applies the target).
\<close>

theorem C2_no_failure_reported_counterexample:
  "\<not> entriesIsArray (JObj [(''dailyTargetMinutes'', JNum 450)])
   \<and> handleImportJSON (Some (Inr (JObj [(''dailyTargetMinutes'', JNum 450)])))
        \<lparr>entries = [JObj [(''date'', JStr ''2024-01-08''), (''pairs'', JArr [])]],
         dailyTargetMinutes = 480\<rparr>
     = (\<lparr>entries = [JObj [(''date'', JStr ''2024-01-08''), (''pairs'', JArr [])]],
         dailyTargetMinutes = 450\<rparr>, None)"
  by (simp add: entriesIsArray_def handleImportJSON_def)

text \<open>
  C3, as the code has it: \<open>addStartNow\<close> leaves the entries unchanged exactly when the
  selected day has an entry whose last pair has no end (absent or empty), whatever the
  earlier pairs hold; \<open>hasOpenPair\<close> holds exactly when some pair of the selected day,
  at any position, has a start and no end; so a last pair with a start and no end makes
  \<open>hasOpenPair\<close> true and \<open>addStartNow\<close> a no-op.  The clock-in button is disabled
  while \<open>hasOpenPair\<close> holds, so a click on it leaves the entries unchanged in every
  state with an open pair at any position.
\<close>

theorem C3_clock_in_gate:
  "(addStartNow now d es = es \<longleftrightarrow>
      (\<exists>e. find (\<lambda>e. date e = d) es = Some e \<and> pairs e \<noteq> []
           \<and> \<not> truthy (end_hhmm (last (pairs e)))))
   \<and> (hasOpenPair d es \<longleftrightarrow>
      (\<exists>p \<in> set (pairs (todayEntry d es)). truthy (start p) \<and> \<not> truthy (end_hhmm p)))
   \<and> (pairs (todayEntry d es) \<noteq> []
       \<and> truthy (start (last (pairs (todayEntry d es))))
       \<and> \<not> truthy (end_hhmm (last (pairs (todayEntry d es))))
       \<longrightarrow> hasOpenPair d es \<and> addStartNow now d es = es)
   \<and> (hasOpenPair d es \<longrightarrow> clockInButton now d es = es)"
proof (intro conjI impI)
  assume "hasOpenPair d es"
  then show "clockInButton now d es = es"
    by (simp add: clockInButton_def)
next
  assume a: "pairs (todayEntry d es) \<noteq> []
       \<and> truthy (start (last (pairs (todayEntry d es))))
       \<and> \<not> truthy (end_hhmm (last (pairs (todayEntry d es))))"
  then show "hasOpenPair d es"
    unfolding hasOpenPair_iff using last_in_set by blast
  from a obtain e where "find (\<lambda>e. date e = d) es = Some e"
    by (cases "find (\<lambda>e. date e = d) es") (auto simp: todayEntry_def)
  with a show "addStartNow now d es = es"
    unfolding addStartNow_unchanged_iff by (simp add: todayEntry_def)
qed (rule addStartNow_unchanged_iff hasOpenPair_iff)+

theorem C3_clock_in_gate_witness:
  "hasOpenPair ''2024-01-08''
     [\<lparr>date = ''2024-01-08'',
       pairs = [\<lparr>start = Some ''09:00'', end_hhmm = Some ''10:00''\<rparr>,
                \<lparr>start = Some ''11:00'', end_hhmm = None\<rparr>],
       note_text = None\<rparr>]
   \<and> addStartNow ''12:00'' ''2024-01-08''
     [\<lparr>date = ''2024-01-08'',
       pairs = [\<lparr>start = Some ''09:00'', end_hhmm = Some ''10:00''\<rparr>,
                \<lparr>start = Some ''11:00'', end_hhmm = None\<rparr>],
       note_text = None\<rparr>]
     = [\<lparr>date = ''2024-01-08'',
       pairs = [\<lparr>start = Some ''09:00'', end_hhmm = Some ''10:00''\<rparr>,
                \<lparr>start = Some ''11:00'', end_hhmm = None\<rparr>],
       note_text = None\<rparr>]
   \<and> clockInButton ''12:00'' ''2024-01-08''
     [\<lparr>date = ''2024-01-08'',
       pairs = [\<lparr>start = Some ''09:00'', end_hhmm = Some ''10:00''\<rparr>,
                \<lparr>start = Some ''11:00'', end_hhmm = None\<rparr>],
       note_text = None\<rparr>]
     = [\<lparr>date = ''2024-01-08'',
       pairs = [\<lparr>start = Some ''09:00'', end_hhmm = Some ''10:00''\<rparr>,
                \<lparr>start = Some ''11:00'', end_hhmm = None\<rparr>],
       note_text = None\<rparr>]"
  using C3_clock_in_gate [of "''12:00''" "''2024-01-08''"
     "[\<lparr>date = ''2024-01-08'',
       pairs = [\<lparr>start = Some ''09:00'', end_hhmm = Some ''10:00''\<rparr>,
                \<lparr>start = Some ''11:00'', end_hhmm = None\<rparr>],
       note_text = None\<rparr>]"]
  by (simp add: todayEntry_def truthy_def)

text \<open>
  C3 fails as stated: with an open pair followed by a closed one, \<open>hasOpenPair\<close>
  holds although the last pair has an end, and \<open>addStartNow\<close> appends a new pair.
\<close>

theorem C3_open_pair_not_last_counterexample:
  "hasOpenPair ''2024-01-08''
     [\<lparr>date = ''2024-01-08'',
       pairs = [\<lparr>start = Some ''08:00'', end_hhmm = None\<rparr>,
                \<lparr>start = Some ''09:00'', end_hhmm = Some ''10:00''\<rparr>],
       note_text = None\<rparr>]
   \<and> truthy (end_hhmm (last [\<lparr>start = Some ''08:00'', end_hhmm = None\<rparr>,
                \<lparr>start = Some ''09:00'', end_hhmm = Some ''10:00''\<rparr>]))
   \<and> addStartNow ''11:00'' ''2024-01-08''
     [\<lparr>date = ''2024-01-08'',
       pairs = [\<lparr>start = Some ''08:00'', end_hhmm = None\<rparr>,
                \<lparr>start = Some ''09:00'', end_hhmm = Some ''10:00''\<rparr>],
       note_text = None\<rparr>]
     = [\<lparr>date = ''2024-01-08'',
       pairs = [\<lparr>start = Some ''08:00'', end_hhmm = None\<rparr>,
                \<lparr>start = Some ''09:00'', end_hhmm = Some ''10:00''\<rparr>,
                \<lparr>start = Some ''11:00'', end_hhmm = None\<rparr>],
       note_text = None\<rparr>]"
  by (simp add: hasOpenPair_def todayEntry_def addStartNow_def truthy_def)



text \<open>
  C5: for every zero-padded "HH:MM" string \<open>x\<close> with hours 00-23 and minutes 00-59,
  \<open>minutesToHHMM (toMinutes x) = x\<close>; for every negative integer, \<open>minutesToHHMM\<close>
  puts a minus sign before the zero-padded hours and minutes of the absolute value, which
  is the text printed for the absolute value itself; and \<open>minutesToHHMM (-65)\<close> is
  "-01:05".
\<close>

theorem C5_roundtrip_and_sign:
  "(valid_hhmm x \<longrightarrow> minutesToHHMM (toMinutes (Some x)) = x)
   \<and> (mins < 0 \<longrightarrow>
        minutesToHHMM mins =
          ''-'' @ padStart 2 CHR ''0'' (toString (nat \<bar>mins\<bar> div 60)) @ '':''
               @ padStart 2 CHR ''0'' (toString (nat \<bar>mins\<bar> mod 60))
        \<and> minutesToHHMM mins = CHR ''-'' # minutesToHHMM (- mins))
   \<and> minutesToHHMM (- 65) = ''-01:05''"
proof (intro conjI impI)
  assume "valid_hhmm x"
  then show "minutesToHHMM (toMinutes (Some x)) = x"
    by (rule minutesToHHMM_toMinutes)
next
  assume "mins < 0"
  then show "minutesToHHMM mins =
      ''-'' @ padStart 2 CHR ''0'' (toString (nat \<bar>mins\<bar> div 60)) @ '':''
           @ padStart 2 CHR ''0'' (toString (nat \<bar>mins\<bar> mod 60))"
    by (rule minutesToHHMM_negative)
next
  assume "mins < 0"
  then show "minutesToHHMM mins = CHR ''-'' # minutesToHHMM (- mins)"
    by (rule minutesToHHMM_negative)
next
  show "minutesToHHMM (- 65) = ''-01:05''"
    by (simp add: minutesToHHMM_def padStart_def toString.simps digit_char_def)
qed

theorem C5_roundtrip_and_sign_witness:
  "valid_hhmm ''08:30'' \<and> minutesToHHMM (toMinutes (Some ''08:30'')) = ''08:30''
   \<and> (- 125 :: int) < 0 \<and> minutesToHHMM (- 125) = ''-02:05''
   \<and> minutesToHHMM (- 125) = CHR ''-'' # minutesToHHMM 125"
proof -
  have v: "valid_hhmm ''08:30''"
    by (simp add: valid_hhmm_def is_digit_def digit_val_def)
  have p: "minutesToHHMM 125 = ''02:05''"
    by (simp add: minutesToHHMM_def padStart_def toString.simps digit_char_def)
  show ?thesis
    using v p C5_roundtrip_and_sign [of "''08:30''" "- 125"]
    by (simp add: padStart_def toString.simps digit_char_def)
qed

text \<open>
  C6, as the code has it: \<open>toMinutes\<close> returns 0 for an absent or empty argument, and
  it has no failing path.  A string that is not a well-formed time is not rejected as a
  whole: for fields of decimal digits, "h:m" yields 60 h + m and "h" alone yields 60 h
  (fields of at most 14 digits, so that these values are exact JavaScript numbers).
\<close>

theorem C6_toMinutes_defaults:
  "toMinutes None = 0
   \<and> toMinutes (Some []) = 0
   \<and> (list_all is_digit h \<and> length h \<le> 14 \<and> list_all is_digit m \<and> length m \<le> 14 \<longrightarrow>
        toMinutes (Some (h @ '':'' @ m)) = 60 * int (dec h) + int (dec m))
   \<and> (list_all is_digit h \<and> length h \<le> 14 \<and> h \<noteq> [] \<longrightarrow>
        toMinutes (Some h) = 60 * int (dec h))"
  using toMinutes_two_fields [of h m] toMinutes_one_field [of h]
  by (simp add: toMinutes_def)

theorem C6_toMinutes_defaults_witness:
  "list_all is_digit ''25'' \<and> length ''25'' \<le> 14
   \<and> list_all is_digit ''99'' \<and> length ''99'' \<le> 14
   \<and> toMinutes (Some ''25:99'') = 1599 \<and> toMinutes (Some ''25'') = 1500"
  using C6_toMinutes_defaults [of "''25''" "''99''"]
  by (simp add: is_digit_def dec_def digit_val_def)

text \<open>
  C6 fails as stated: "8" and "xx:30" are no well-formed times, and \<open>toMinutes\<close>
  returns 480 and 30 for them.
\<close>

theorem C6_not_zero_counterexample:
  "\<not> valid_hhmm ''8'' \<and> toMinutes (Some ''8'') = 480
   \<and> \<not> valid_hhmm ''xx:30'' \<and> toMinutes (Some ''xx:30'') = 30"
  by (simp add: valid_hhmm_def toMinutes_def Number_def dec_def is_digit_def digit_val_def
        at_index_def or_zero_def)

text \<open>
  C7: for every list of day entries and every integer daily target, \<open>overtimeFor\<close>
  returns as total the sum of \<open>sumDayMinutes\<close> over the entries, as target the daily
  target times the number of entries whose \<open>sumDayMinutes\<close> is strictly positive, and
  as delta the total minus the target; for the empty list all three are 0.
\<close>

theorem C7_overtimeFor:
  "overtimeFor t es =
     \<lparr>total = sum_list (map sumDayMinutes es),
      target = t * int (length (filter (\<lambda>e. 0 < sumDayMinutes e) es)),
      delta = sum_list (map sumDayMinutes es)
              - t * int (length (filter (\<lambda>e. 0 < sumDayMinutes e) es))\<rparr>
   \<and> overtimeFor t [] = \<lparr>total = 0, target = 0, delta = 0\<rparr>"
  by (simp add: overtimeFor_def Let_def foldl_add_sumDayMinutes)

text \<open>
  C8 claims that \<open>startOfWeek\<close> returns the Monday on or before the date and that the
  seven dates of \<open>weekEntries\<close> contain the date once.  In a zone east of UTC the code
  does otherwise.  At UTC+1, for the Sunday 2024-01-07, \<open>startOfWeek\<close> returns
  2023-12-31, a Sunday, and the week listed runs from 2023-12-30 to 2024-01-05, without
  2024-01-07.
\<close>

theorem C8_startOfWeek_east_of_UTC:
  "startOfWeek 60 ''2024-01-07'' = ''2023-12-31''
   \<and> getDay 60 (newDate 60 ''2023-12-31'') = 0
   \<and> map date (weekEntries 60 ''2024-01-07'' []) =
        [''2023-12-30'', ''2023-12-31'', ''2024-01-01'', ''2024-01-02'',
         ''2024-01-03'', ''2024-01-04'', ''2024-01-05'']
   \<and> ''2024-01-07'' \<notin> set (map date (weekEntries 60 ''2024-01-07'' []))"
  by (simp add: startOfWeek_east getDay_east weekEntries_east)

text \<open>
  C9, as the code has it: for every pair whose start and end have only decimal digits in
  their first two fields and convert to minute values between 0 and 1439, which are then
  integers, the duration of the CSV export,
  \<open>(toMinutes(end) - toMinutes(start) + 1440) % 1440\<close>, is what the pair adds to the sum
  in \<open>sumDayMinutes\<close>; in double precision both are that same integer.
\<close>

theorem C9_durations_agree_on_digit_fields:
  assumes "digit_fields (start p)" "digit_fields (end_hhmm p)"
      and "0 \<le> toMinutes (start p)" "toMinutes (start p) \<le> 1439"
      and "0 \<le> toMinutes (end_hhmm p)" "toMinutes (end_hhmm p) \<le> 1439"
  shows "sumDayStep acc p = acc + csvDuration p
       \<and> csvDuration_double p = Some (of_int (csvDuration p))
       \<and> sumDayStep_double 0 p = Some (of_int (csvDuration p))"
proof (cases "truthy (start p) \<and> truthy (end_hhmm p)")
  case False
  then show ?thesis
    by (auto simp: sumDayStep_def csvDuration_def sumDayStep_double_def csvDuration_double_def)
next
  case True
  let ?s = "toMinutes (start p)" and ?e = "toMinutes (end_hhmm p)"
  let ?d = "?e - ?s"
  let ?w = "if ?d < 0 then ?d + 1440 else ?d"
  from assms have r: "- 1439 \<le> ?d" "?d \<le> 1439" by simp_all
  have ts: "toMinutes_double (start p) = Some (of_int ?s)"
    and te: "toMinutes_double (end_hhmm p) = Some (of_int ?e)"
    using assms by (simp_all add: toMinutes_double_digits)
  have sub: "js_sub (of_int ?e) (of_int ?s) = of_int ?d"
    using r by (intro js_int_ops) simp
  have add: "js_add (of_int ?d) (of_int 1440) = of_int (?d + 1440)"
    using r by (intro js_int_ops) simp
  have "js_rem (?d + 1440) 1440 = (?d + 1440) mod 1440"
    using r by (intro js_rem_pos) simp_all
  also have "\<dots> = ?w"
    using r by (rule wrap_mod_1440)
  finally have csv: "csvDuration p = ?w"
    using True by (simp add: csvDuration_def)
  have step: "sumDayStep acc p = acc + ?w"
    using True by (simp add: sumDayStep_def Let_def)
  have "js_fmod (of_int (?d + 1440)) (of_int 1440) = of_int ((?d + 1440) mod 1440)"
    using r by (intro js_fmod_of_int) simp_all
  also have "(?d + 1440) mod 1440 = ?w"
    using r by (rule wrap_mod_1440)
  finally have csvd: "csvDuration_double p = Some (of_int ?w)"
    using True sub add by (simp add: csvDuration_double_def ts te)
  have w53: "\<bar>0 + ?w\<bar> < 2 ^ 53" using r by simp
  have "js_add (of_int 0) (of_int ?w) = of_int (0 + ?w)"
    using w53 by (rule js_int_ops)
  then have a0: "js_add 0 (of_int ?w) = of_int ?w" by simp
  have "(if js_sub (of_int ?e) (of_int ?s) < 0
         then js_add (js_sub (of_int ?e) (of_int ?s)) (24 * 60)
         else js_sub (of_int ?e) (of_int ?s)) = (of_int ?w :: rat)"
    using add unfolding sub by simp
  then have stepd: "sumDayStep_double 0 p = Some (of_int ?w)"
    using True a0 by (simp add: sumDayStep_double_def ts te Let_def)
  show ?thesis
    unfolding csv step csvd stepd by simp
qed

theorem C9_durations_agree_on_digit_fields_witness:
  "digit_fields (Some ''22:00'') \<and> digit_fields (Some ''06:00'')
   \<and> 0 \<le> toMinutes (Some ''22:00'') \<and> toMinutes (Some ''22:00'') \<le> 1439
   \<and> 0 \<le> toMinutes (Some ''06:00'') \<and> toMinutes (Some ''06:00'') \<le> 1439
   \<and> sumDayStep 7 \<lparr>start = Some ''22:00'', end_hhmm = Some ''06:00''\<rparr> = 487
   \<and> csvDuration \<lparr>start = Some ''22:00'', end_hhmm = Some ''06:00''\<rparr> = 480
   \<and> csvDuration_double \<lparr>start = Some ''22:00'', end_hhmm = Some ''06:00''\<rparr> = Some 480
   \<and> sumDayStep_double 0 \<lparr>start = Some ''22:00'', end_hhmm = Some ''06:00''\<rparr> = Some 480"
proof -
  have d: "digit_fields (Some ''22:00'')" "digit_fields (Some ''06:00'')"
    by (simp_all add: digit_fields_def is_digit_def)
  have s: "sumDayStep 7 \<lparr>start = Some ''22:00'', end_hhmm = Some ''06:00''\<rparr> = 487"
    by (simp add: toMinutes_2200 toMinutes_0600 sumDayStep_def truthy_def)
  show ?thesis
    using d s
      C9_durations_agree_on_digit_fields
        [of "\<lparr>start = Some ''22:00'', end_hhmm = Some ''06:00''\<rparr>" 7]
    by (simp add: toMinutes_2200 toMinutes_0600)
qed

text \<open>
  C9 fails as stated: for the pair with start "00:00" and end "00:00.1" both minute values
  lie between 0 and 1439 (0 and the double nearest to 0.1), \<open>sumDayMinutes\<close> adds
  0.1000000000000000055, and the CSV export computes 0.0999999999999090505, because
  \<open>0.1 + 1440\<close> is rounded.
\<close>

theorem C9_fraction_counterexample:
  "digit_fields (Some ''00:00'') \<and> \<not> digit_fields (Some ''00:00.1'')
   \<and> toMinutes_double (Some ''00:00'') = Some 0
   \<and> toMinutes_double (Some ''00:00.1'') = Some (3602879701896397 / 36028797018963968)
   \<and> (0 :: rat) \<le> 3602879701896397 / 36028797018963968
   \<and> (3602879701896397 / 36028797018963968 :: rat) \<le> 1439
   \<and> sumDayStep_double 0 \<lparr>start = Some ''00:00'', end_hhmm = Some ''00:00.1''\<rparr>
       = Some (3602879701896397 / 36028797018963968)
   \<and> csvDuration_double \<lparr>start = Some ''00:00'', end_hhmm = Some ''00:00.1''\<rparr>
       = Some (219902325555 / 2199023255552)
   \<and> sumDayStep_double 0 \<lparr>start = Some ''00:00'', end_hhmm = Some ''00:00.1''\<rparr>
       \<noteq> csvDuration_double \<lparr>start = Some ''00:00'', end_hhmm = Some ''00:00.1''\<rparr>"
proof -
  let ?p = "\<lparr>start = Some ''00:00'', end_hhmm = Some ''00:00.1''\<rparr>"
  have d: "digit_fields (Some ''00:00'')" "\<not> digit_fields (Some ''00:00.1'')"
    by (simp_all add: digit_fields_def is_digit_def)
  have s: "sumDayStep_double 0 ?p = Some (3602879701896397 / 36028797018963968)"
    by (simp add: sumDayStep_double_def truthy_def toMinutes_double_examples js_sub_def
          js_add_def to_double_tenth_idem)
  have "js_sub (3602879701896397 / 36028797018963968) 0 = 3602879701896397 / 36028797018963968"
    by (simp add: js_sub_def to_double_tenth_idem)
  moreover have "js_add (3602879701896397 / 36028797018963968) 1440
      = 3166813390320435 / 2199023255552"
    unfolding js_add_def by (rule to_double_1440_tenth)
  ultimately have "js_fmod (js_add (js_sub (3602879701896397 / 36028797018963968) 0) 1440) 1440
      = 219902325555 / 2199023255552"
    by (simp only: js_fmod_example)
  then have c: "csvDuration_double ?p = Some (219902325555 / 2199023255552)"
    by (simp add: csvDuration_double_def truthy_def toMinutes_double_examples)
  show ?thesis
    unfolding s c using d by (simp add: toMinutes_double_examples)
qed

text \<open>
  C10: \<open>clearDay\<close> keeps the number of entries; an entry whose date is the selected
  date gets the empty list of pairs and keeps its date and its note; an entry with another
  date is not changed.
\<close>

theorem C10_clearDay:
  "length (clearDay d es) = length es
   \<and> (\<forall>i < length es.
        (date (es ! i) = d \<longrightarrow>
           clearDay d es ! i = (es ! i)\<lparr>pairs := []\<rparr>
           \<and> pairs (clearDay d es ! i) = []
           \<and> date (clearDay d es ! i) = date (es ! i)
           \<and> note_text (clearDay d es ! i) = note_text (es ! i))
        \<and> (date (es ! i) \<noteq> d \<longrightarrow> clearDay d es ! i = es ! i))"
  by (simp add: clearDay_def)

theorem C10_clearDay_witness:
  "clearDay ''2024-01-08''
     [\<lparr>date = ''2024-01-07'', pairs = [\<lparr>start = Some ''09:00'', end_hhmm = None\<rparr>],
       note_text = None\<rparr>,
      \<lparr>date = ''2024-01-08'',
       pairs = [\<lparr>start = Some ''08:00'', end_hhmm = Some ''16:30''\<rparr>],
       note_text = Some ''remote''\<rparr>]
   = [\<lparr>date = ''2024-01-07'', pairs = [\<lparr>start = Some ''09:00'', end_hhmm = None\<rparr>],
       note_text = None\<rparr>,
      \<lparr>date = ''2024-01-08'', pairs = [], note_text = Some ''remote''\<rparr>]"
proof -
  let ?a = "\<lparr>date = ''2024-01-07'', pairs = [\<lparr>start = Some ''09:00'', end_hhmm = None\<rparr>],
       note_text = None\<rparr>"
  let ?b = "\<lparr>date = ''2024-01-08'',
       pairs = [\<lparr>start = Some ''08:00'', end_hhmm = Some ''16:30''\<rparr>],
       note_text = Some ''remote''\<rparr>"
  from C10_clearDay [of "''2024-01-08''" "[?a, ?b]"]
  have len: "length (clearDay ''2024-01-08'' [?a, ?b]) = 2"
    and nth: "\<forall>i<2. (date ([?a, ?b] ! i) = ''2024-01-08'' \<longrightarrow>
                clearDay ''2024-01-08'' [?a, ?b] ! i = ([?a, ?b] ! i)\<lparr>pairs := []\<rparr>)
              \<and> (date ([?a, ?b] ! i) \<noteq> ''2024-01-08'' \<longrightarrow>
                clearDay ''2024-01-08'' [?a, ?b] ! i = [?a, ?b] ! i)"
    by simp_all
  from nth have "clearDay ''2024-01-08'' [?a, ?b] ! 0 = ?a"
    by (simp del: One_nat_def)
  moreover from nth have "clearDay ''2024-01-08'' [?a, ?b] ! 1 = ?b\<lparr>pairs := []\<rparr>"
    by auto
  ultimately show ?thesis
    using len by (auto simp: nth_equalityI list_eq_iff_nth_eq less_Suc_eq numeral_2_eq_2)
qed

end
